theory Spec2Isabelle
  imports Complex_Main "HOL-Library.Word"
begin

section \<open>Data model of \<^verbatim>\<open>src/index.ts\<close>\<close>

text \<open>
  The canister keeps its ads in one stable map from the ad's id to the ad. Every exported
  function returns a \<^verbatim>\<open>Result<_, string>\<close>: \<^verbatim>\<open>Result.Ok\<close> with a value, or
  \<^verbatim>\<open>Result.Err\<close> with a message. The messages are the strings of the source.
\<close>

type_synonym nat64 = "64 word"

text \<open>
  A JavaScript \<^verbatim>\<open>number\<close>. The code stores amounts and asks \<^verbatim>\<open>isNaN\<close> of them, nothing
  more, so the finite values are kept as rationals (every finite double is one).
\<close>

datatype number = NaN | PosInfinity | NegInfinity | Finite rat

fun isNaN :: "number \<Rightarrow> bool" where
  "isNaN NaN = True"
| "isNaN _ = False"

record CreateAdPayload =
  itemType :: string
  itemDescription :: string

record UpdateAdPayload =
  itemType :: string
  itemDescription :: string
  status :: string

record Bid =
  bidder :: string
  amount :: number

text \<open>The field \<^verbatim>\<open>id\<close> of the source is \<open>ad_id\<close> here, \<open>id\<close> being the identity of HOL.\<close>

record Ad =
  ad_id :: string
  owner :: string
  itemType :: string
  itemDescription :: string
  bids :: "Bid list"
  status :: string
  createdAt :: nat64
  updatedAt :: "nat64 option"

datatype 'a Result = Ok 'a | Err string

subsection \<open>The enum \<^verbatim>\<open>AdStatus\<close>\<close>

definition AdStatus_OPEN :: string where
  "AdStatus_OPEN = ''OPEN''"

definition AdStatus_CLOSED :: string where
  "AdStatus_CLOSED = ''CLOSED''"

definition AdStatus_BOUGHT :: string where
  "AdStatus_BOUGHT = ''BOUGHT''"

text \<open>
  A string enum compiles to a plain object whose own properties are the member names; here
  every member's value is its name, so \<^verbatim>\<open>Object.values(AdStatus)\<close> is the same list.
\<close>

definition AdStatus_own_keys :: "string list" where
  "AdStatus_own_keys = [''OPEN'', ''CLOSED'', ''BOUGHT'']"

definition AdStatus_values :: "string list" where
  "AdStatus_values = [AdStatus_OPEN, AdStatus_CLOSED, AdStatus_BOUGHT]"

text \<open>
  The property names every plain object inherits from \<^verbatim>\<open>Object.prototype\<close> (ECMAScript,
  sections 20.1.3 and B.2.2).
\<close>

definition Object_prototype_keys :: "string list" where
  "Object_prototype_keys =
     [''constructor'', ''hasOwnProperty'', ''isPrototypeOf'', ''propertyIsEnumerable'',
      ''toLocaleString'', ''toString'', ''valueOf'', ''__proto__'',
      ''__defineGetter__'', ''__defineSetter__'', ''__lookupGetter__'', ''__lookupSetter__'']"

text \<open>
  \<^verbatim>\<open>s in AdStatus\<close>: the operator \<^verbatim>\<open>in\<close> looks the name up in the object and then
  along its prototype chain.
\<close>

definition in_AdStatus :: "string \<Rightarrow> bool" where
  "in_AdStatus s \<longleftrightarrow> s \<in> set AdStatus_own_keys \<or> s \<in> set Object_prototype_keys"

subsection \<open>Truthiness of strings\<close>

text \<open>\<^verbatim>\<open>!s\<close> on a string holds of the empty string only; \<^verbatim>\<open>a || b\<close> is \<open>a\<close> unless \<open>a\<close> is empty.\<close>

definition falsy :: "string \<Rightarrow> bool" where
  "falsy s \<longleftrightarrow> s = []"

definition or_else :: "string \<Rightarrow> string \<Rightarrow> string" where
  "or_else a b = (if falsy a then b else a)"

text \<open>
  \<^verbatim>\<open>throw new Error(msg)\<close> inside \<^verbatim>\<open>try\<close>, caught by
  \<^verbatim>\<open>catch (error) { return Result.Err(error.message || fallback) }\<close>.
\<close>

definition thrown :: "string \<Rightarrow> string \<Rightarrow> 'a Result" where
  "thrown msg fallback = Err (or_else msg fallback)"

definition join_comma :: "string list \<Rightarrow> string" where
  "join_comma xs = concat (case xs of [] \<Rightarrow> [] | y # ys \<Rightarrow> y # map (\<lambda>z. '', '' @ z) ys)"

subsection \<open>The store\<close>

text \<open>
  Modelled from the spec: the store \<^verbatim>\<open>adStorage\<close> is azle's \<^verbatim>\<open>StableBTreeMap\<close>, a library that
  is not part of the sources. The spec takes it as a key-value map with the operations get,
  insert, remove and values, one value for each key. It is an association list here: insert
  replaces the value of a key that is present, and \<open>values\<close> lists the values in the order of
  the list. The iteration order of the library and its bounds on the sizes of keys and values
  are left to the library; no theorem below depends on the order.
\<close>

type_synonym store = "(string \<times> Ad) list"

fun adStorage_get :: "string \<Rightarrow> store \<Rightarrow> Ad option" where
  "adStorage_get k [] = None"
| "adStorage_get k ((k', v) # s) = (if k = k' then Some v else adStorage_get k s)"

fun adStorage_insert :: "string \<Rightarrow> Ad \<Rightarrow> store \<Rightarrow> store" where
  "adStorage_insert k v [] = [(k, v)]"
| "adStorage_insert k v ((k', v') # s) =
     (if k = k' then (k, v) # s else (k', v') # adStorage_insert k v s)"

fun adStorage_remove :: "string \<Rightarrow> store \<Rightarrow> store" where
  "adStorage_remove k [] = []"
| "adStorage_remove k ((k', v) # s) =
     (if k = k' then adStorage_remove k s else (k', v) # adStorage_remove k s)"

definition adStorage_values :: "store \<Rightarrow> Ad list" where
  "adStorage_values s = map snd s"

section \<open>The operations\<close>

text \<open>
  Each updating function takes the store and returns its result with the store it leaves.
  The two calls of \<^verbatim>\<open>uuidv4()\<close> and the call of \<^verbatim>\<open>ic.time()\<close> are inputs: \<open>uuid1\<close> is the
  first identifier generated (the object literal evaluates \<^verbatim>\<open>id\<close> before \<^verbatim>\<open>owner\<close>), \<open>uuid2\<close>
  the second, \<open>now\<close> the time.
\<close>

definition createAd ::
  "string \<Rightarrow> string \<Rightarrow> nat64 \<Rightarrow> CreateAdPayload \<Rightarrow> store \<Rightarrow> Ad Result \<times> store" where
  "createAd uuid1 uuid2 now payload adStorage =
     (if falsy (CreateAdPayload.itemType payload) \<or> falsy (CreateAdPayload.itemDescription payload)
      then (thrown ''Invalid payload for creating ad'' ''Failed to create ad'', adStorage)
      else
        let ad = \<lparr>ad_id = uuid1,
                  owner = uuid2,
                  itemType = CreateAdPayload.itemType payload,
                  itemDescription = CreateAdPayload.itemDescription payload,
                  bids = [],
                  status = AdStatus_OPEN,
                  createdAt = now,
                  updatedAt = None\<rparr>
        in (Ok ad, adStorage_insert (ad_id ad) ad adStorage))"

definition updateAd ::
  "nat64 \<Rightarrow> string \<Rightarrow> string \<Rightarrow> UpdateAdPayload \<Rightarrow> store \<Rightarrow> Ad Result \<times> store" where
  "updateAd now i ownr payload adStorage =
     (if falsy i \<or> falsy ownr
      then (thrown ''Invalid parameters for updating ad'' ''Failed to update ad'', adStorage)
      else if falsy (UpdateAdPayload.itemType payload)
            \<or> falsy (UpdateAdPayload.itemDescription payload)
      then (thrown ''Invalid payload for updating ad'' ''Failed to update ad'', adStorage)
      else if \<not> falsy (UpdateAdPayload.status payload)
            \<and> \<not> in_AdStatus (UpdateAdPayload.status payload)
      then (thrown (''Invalid status! Allowed statuses are '' @ join_comma AdStatus_values)
              ''Failed to update ad'', adStorage)
      else
        case adStorage_get i adStorage of
          Some ad \<Rightarrow>
            if Ad.owner ad \<noteq> ownr then (Err ''Only the owner can edit the ad!'', adStorage)
            else
              let updatedAd = ad\<lparr>
                    Ad.itemType := or_else (UpdateAdPayload.itemType payload) (Ad.itemType ad),
                    Ad.itemDescription :=
                      or_else (UpdateAdPayload.itemDescription payload) (Ad.itemDescription ad),
                    Ad.status := or_else (UpdateAdPayload.status payload) (Ad.status ad),
                    updatedAt := Some now\<rparr>
              in (Ok updatedAd, adStorage_insert (ad_id ad) updatedAd adStorage)
        | None \<Rightarrow> (Err (''Ad with id of '' @ i @ '' has not been found''), adStorage))"

definition deleteAd :: "string \<Rightarrow> string \<Rightarrow> store \<Rightarrow> Ad Result \<times> store" where
  "deleteAd i ownr adStorage =
     (if falsy i \<or> falsy ownr
      then (thrown ''Invalid parameters for deleting ad'' ''Failed to delete ad'', adStorage)
      else
        case adStorage_get i adStorage of
          Some ad \<Rightarrow>
            if Ad.owner ad \<noteq> ownr then (Err ''Only the owner can delete the ad!'', adStorage)
            else (Ok ad, adStorage_remove i adStorage)
        | None \<Rightarrow> (Err (''Ad with id of '' @ i @ '' has not been found''), adStorage))"

definition bidOnAd :: "string \<Rightarrow> string \<Rightarrow> number \<Rightarrow> store \<Rightarrow> Ad Result \<times> store" where
  "bidOnAd i bidr amnt adStorage =
     (if falsy i \<or> falsy bidr \<or> isNaN amnt
      then (thrown ''Invalid parameters for bidding on ad'' ''Failed to bid on ad'', adStorage)
      else
        case adStorage_get i adStorage of
          Some ad \<Rightarrow>
            if Ad.status ad \<noteq> AdStatus_OPEN then (Err ''Ad is no longer open'', adStorage)
            else if Ad.owner ad = bidr then (Err ''You can't bid on your own ad!'', adStorage)
            else if find (\<lambda>bid. bidder bid = bidr) (bids ad) \<noteq> None
            then (Err (bidr @ '' has already bid on this ad!''), adStorage)
            else
              let ad' = ad\<lparr>bids := bids ad @ [\<lparr>bidder = bidr, amount = amnt\<rparr>]\<rparr>
              in (Ok ad', adStorage_insert (ad_id ad') ad' adStorage)
        | None \<Rightarrow> (Err (''Ad with id of '' @ i @ '' has not been found''), adStorage))"

definition getAllAds :: "store \<Rightarrow> Ad list Result" where
  "getAllAds adStorage = Ok (adStorage_values adStorage)"

definition getAdByID :: "string \<Rightarrow> store \<Rightarrow> Ad Result" where
  "getAdByID i adStorage =
     (case adStorage_get i adStorage of
        Some ad \<Rightarrow> Ok ad
      | None \<Rightarrow> Err (''Ad with id of '' @ i @ '' has not been found!''))"

definition getAdsByOwner :: "string \<Rightarrow> store \<Rightarrow> Ad list Result" where
  "getAdsByOwner ownr adStorage =
     (let ads = filter (\<lambda>ad. Ad.owner ad = ownr) (adStorage_values adStorage)
      in if length ads > 0 then Ok ads else Err (''No ads found for '' @ ownr))"

section \<open>The failures, by the names the specification gives them\<close>

definition InvalidPayload_create :: string where
  "InvalidPayload_create = ''Invalid payload for creating ad''"

definition InvalidParameters_update :: string where
  "InvalidParameters_update = ''Invalid parameters for updating ad''"

definition InvalidPayload_update :: string where
  "InvalidPayload_update = ''Invalid payload for updating ad''"

definition InvalidStatus :: string where
  "InvalidStatus = ''Invalid status! Allowed statuses are OPEN, CLOSED, BOUGHT''"

definition NotFound :: "string \<Rightarrow> string" where
  "NotFound i = ''Ad with id of '' @ i @ '' has not been found''"

definition NotFound_query :: "string \<Rightarrow> string" where
  "NotFound_query i = ''Ad with id of '' @ i @ '' has not been found!''"

definition NoAdsFound :: "string \<Rightarrow> string" where
  "NoAdsFound ownr = ''No ads found for '' @ ownr"

definition Unauthorized_update :: string where
  "Unauthorized_update = ''Only the owner can edit the ad!''"

definition DuplicateBid :: "string \<Rightarrow> string" where
  "DuplicateBid bidr = bidr @ '' has already bid on this ad!''"

section \<open>Sequences of calls\<close>

text \<open>
  A call of one of the seven exported functions, with the values the environment hands to it:
  the two generated identifiers and the time for \<open>createAd\<close>, the time for \<open>updateAd\<close>.
\<close>

datatype call =
    CreateAd string string nat64 CreateAdPayload
  | UpdateAd nat64 string string UpdateAdPayload
  | DeleteAd string string
  | BidOnAd string string number
  | GetAllAds
  | GetAdByID string
  | GetAdsByOwner string

text \<open>The store a call leaves. The three queries return a result and write nothing.\<close>

fun exec :: "call \<Rightarrow> store \<Rightarrow> store" where
  "exec (CreateAd uuid1 uuid2 now payload) s = snd (createAd uuid1 uuid2 now payload s)"
| "exec (UpdateAd now i ownr payload) s = snd (updateAd now i ownr payload s)"
| "exec (DeleteAd i ownr) s = snd (deleteAd i ownr s)"
| "exec (BidOnAd i bidr amnt) s = snd (bidOnAd i bidr amnt s)"
| "exec GetAllAds s = s"
| "exec (GetAdByID i) s = s"
| "exec (GetAdsByOwner ownr) s = s"

text \<open>
  What is taken of the identifier generator, which the specification leaves to a collaborator
  that gives fresh unique identifiers: \<^verbatim>\<open>uuidv4()\<close> returns a string of 36 characters, so never
  the empty one, and the id it returns is not the key of a stored ad. The other calls take
  any arguments.
\<close>

fun generated :: "call \<Rightarrow> store \<Rightarrow> bool" where
  "generated (CreateAd uuid1 uuid2 now payload) s \<longleftrightarrow>
     uuid1 \<noteq> [] \<and> uuid2 \<noteq> [] \<and> adStorage_get uuid1 s = None"
| "generated _ s \<longleftrightarrow> True"

text \<open>
  The store after a sequence of calls from \<open>s\<close>; \<open>None\<close> when a call carries identifiers the
  generator cannot have given. The stores the canister can be in are \<open>run cs []\<close>.
\<close>

fun run :: "call list \<Rightarrow> store \<Rightarrow> store option" where
  "run [] s = Some s"
| "run (c # cs) s = (if generated c s then run cs (exec c s) else None)"

section \<open>Invariants of the bids\<close>

text \<open>At most one bid for each bidder, and none by the owner.\<close>

definition bids_ok :: "Ad \<Rightarrow> bool" where
  "bids_ok ad \<longleftrightarrow>
     distinct (map bidder (bids ad)) \<and> Ad.owner ad \<notin> set (map bidder (bids ad))"

text \<open>
  From \<open>ad\<close> to \<open>ad'\<close> the bids are the same, or \<open>ad\<close> was open and \<open>ad'\<close> has the bids of \<open>ad\<close>
  in their order followed by one more.
\<close>

definition bids_grow :: "Ad \<Rightarrow> Ad \<Rightarrow> bool" where
  "bids_grow ad ad' \<longleftrightarrow>
     bids ad' = bids ad
     \<or> (Ad.status ad = AdStatus_OPEN
        \<and> length (bids ad') = Suc (length (bids ad))
        \<and> take (length (bids ad)) (bids ad') = bids ad)"

text \<open>An entry of the store: the ad is kept under its own id, and id and owner are not empty.\<close>

definition stored_ok :: "string \<times> Ad \<Rightarrow> bool" where
  "stored_ok e \<longleftrightarrow>
     ad_id (snd e) = fst e \<and> fst e \<noteq> [] \<and> Ad.owner (snd e) \<noteq> [] \<and> bids_ok (snd e)"

definition store_inv :: "store \<Rightarrow> bool" where
  "store_inv s \<longleftrightarrow> list_all stored_ok s"

section \<open>Example values\<close>

definition payload_bike :: CreateAdPayload where
  "payload_bike =
     \<lparr>CreateAdPayload.itemType = ''bike'', CreateAdPayload.itemDescription = ''red bike''\<rparr>"

definition ad_bike :: Ad where
  "ad_bike = \<lparr>ad_id = ''a1'', owner = ''o1'', itemType = ''bike'',
               itemDescription = ''red bike'', bids = [], status = ''OPEN'',
               createdAt = 1000, updatedAt = None\<rparr>"

definition bid_buyer1 :: Bid where
  "bid_buyer1 = \<lparr>bidder = ''buyer1'', amount = Finite 100\<rparr>"

definition ad_bike_bid :: Ad where
  "ad_bike_bid = ad_bike\<lparr>bids := [bid_buyer1]\<rparr>"

definition update_closed :: UpdateAdPayload where
  "update_closed =
     \<lparr>UpdateAdPayload.itemType = ''bike'', UpdateAdPayload.itemDescription = ''blue bike'',
      UpdateAdPayload.status = ''CLOSED''\<rparr>"

definition update_toString :: UpdateAdPayload where
  "update_toString =
     \<lparr>UpdateAdPayload.itemType = ''bike'', UpdateAdPayload.itemDescription = ''blue bike'',
      UpdateAdPayload.status = ''toString''\<rparr>"

definition ad_bike_closed :: Ad where
  "ad_bike_closed =
     ad_bike\<lparr>Ad.itemDescription := ''blue bike'', Ad.status := ''CLOSED'',
       updatedAt := Some 2000\<rparr>"

definition ad_bike_toString :: Ad where
  "ad_bike_toString =
     ad_bike\<lparr>Ad.itemDescription := ''blue bike'', Ad.status := ''toString'',
       updatedAt := Some 2000\<rparr>"

definition ad_bike_bid2 :: Ad where
  "ad_bike_bid2 =
     ad_bike\<lparr>bids := [bid_buyer1, \<lparr>bidder = ''buyer2'', amount = Finite 200\<rparr>]\<rparr>"

definition calls_bike :: "call list" where
  "calls_bike = [CreateAd ''a1'' ''o1'' 1000 payload_bike]"

definition calls_bike_bid :: "call list" where
  "calls_bike_bid =
     [CreateAd ''a1'' ''o1'' 1000 payload_bike, BidOnAd ''a1'' ''buyer1'' (Finite 100)]"

section \<open>Basic facts\<close>

lemma thrown_msg: "msg \<noteq> [] \<Longrightarrow> thrown msg fallback = Err msg"
  by (simp add: thrown_def or_else_def falsy_def)

lemma join_AdStatus_values: "join_comma AdStatus_values = ''OPEN, CLOSED, BOUGHT''"
  by (simp add: join_comma_def AdStatus_values_def AdStatus_OPEN_def AdStatus_CLOSED_def
      AdStatus_BOUGHT_def)

lemma get_insert:
  "adStorage_get k' (adStorage_insert k v s) = (if k' = k then Some v else adStorage_get k' s)"
  by (induction s) auto

lemma get_remove:
  "adStorage_get k' (adStorage_remove k s) = (if k' = k then None else adStorage_get k' s)"
  by (induction s) auto

lemma get_in_set: "adStorage_get k s = Some v \<Longrightarrow> (k, v) \<in> set s"
  by (induction s) (auto split: if_splits)

lemma set_insert_subset: "set (adStorage_insert k v s) \<subseteq> insert (k, v) (set s)"
  by (induction s) (auto split: if_splits)

lemma set_remove_subset: "set (adStorage_remove k s) \<subseteq> set s"
  by (induction s) (auto split: if_splits)

lemma keys_insert:
  "map fst (adStorage_insert k v s) =
     (if k \<in> set (map fst s) then map fst s else map fst s @ [k])"
  by (induction s) force+

lemma keys_remove: "map fst (adStorage_remove k s) = removeAll k (map fst s)"
  by (induction s) auto

lemma distinct_insert:
  "distinct (map fst s) \<Longrightarrow> distinct (map fst (adStorage_insert k v s))"
  by (simp add: keys_insert)

lemma distinct_remove:
  "distinct (map fst s) \<Longrightarrow> distinct (map fst (adStorage_remove k s))"
  by (simp add: keys_remove distinct_removeAll)

lemma run_calls_bike: "run calls_bike [] = Some [(''a1'', ad_bike)]"
  by (simp add: calls_bike_def createAd_def payload_bike_def ad_bike_def falsy_def
      AdStatus_OPEN_def Let_def)

lemma run_calls_bike_bid: "run calls_bike_bid [] = Some [(''a1'', ad_bike_bid)]"
  by (simp add: calls_bike_bid_def createAd_def bidOnAd_def payload_bike_def ad_bike_def
      ad_bike_bid_def bid_buyer1_def falsy_def AdStatus_OPEN_def Let_def)

section \<open>Queries on an empty result\<close>

text \<open>
  Claim C7. \<open>getAllAds\<close> on the empty store succeeds with the empty sequence, whereas
  \<open>getAdsByOwner\<close> fails whenever no stored ad has the owner asked for; on the empty store in
  particular.
\<close>

theorem C7_empty_results:
  "getAllAds [] = Ok []
   \<and> (filter (\<lambda>ad. Ad.owner ad = ownr) (adStorage_values s) = []
        \<longrightarrow> getAdsByOwner ownr s = Err (NoAdsFound ownr))
   \<and> getAdsByOwner ownr [] = Err (NoAdsFound ownr)"
  by (simp add: getAllAds_def getAdsByOwner_def adStorage_values_def NoAdsFound_def)

theorem C7_empty_results_witness:
  "getAllAds [] = Ok []
   \<and> filter (\<lambda>ad. Ad.owner ad = ''o2'') (adStorage_values [(''a1'', ad_bike)]) = []
   \<and> getAdsByOwner ''o2'' [(''a1'', ad_bike)] = Err ''No ads found for o2''
   \<and> getAdsByOwner ''o2'' [] = Err ''No ads found for o2''"
  using C7_empty_results [of "''o2''" "[(''a1'', ad_bike)]"]
  by (simp add: adStorage_values_def ad_bike_def NoAdsFound_def)

section \<open>Creating an ad\<close>

lemma createAd_InvalidPayload:
  "CreateAdPayload.itemType payload = [] \<or> CreateAdPayload.itemDescription payload = [] \<Longrightarrow>
   createAd uuid1 uuid2 now payload s = (Err InvalidPayload_create, s)"
  by (auto simp: createAd_def thrown_def or_else_def falsy_def InvalidPayload_create_def)

text \<open>
  Claim C2. A call of \<open>createAd\<close> with non-empty \<open>itemType\<close> and \<open>itemDescription\<close> succeeds.
  The ad it returns has the first generated identifier as id and the second as owner (the
  payload has no owner), the two fields of the payload, status OPEN, no bids, the current
  time as \<open>createdAt\<close> and no \<open>updatedAt\<close>. The store it leaves is the old one with that ad
  inserted under its id: \<open>getAdByID\<close> returns the ad, and every other key is as before.
\<close>

theorem C2_createAd_success:
  assumes "CreateAdPayload.itemType payload \<noteq> []"
    and "CreateAdPayload.itemDescription payload \<noteq> []"
  shows "\<exists>ad s'. createAd uuid1 uuid2 now payload s = (Ok ad, s')
           \<and> ad = \<lparr>ad_id = uuid1, owner = uuid2,
                    itemType = CreateAdPayload.itemType payload,
                    itemDescription = CreateAdPayload.itemDescription payload,
                    bids = [], status = ''OPEN'', createdAt = now, updatedAt = None\<rparr>
           \<and> s' = adStorage_insert (ad_id ad) ad s
           \<and> getAdByID (ad_id ad) s' = Ok ad
           \<and> (\<forall>k. k \<noteq> ad_id ad \<longrightarrow> adStorage_get k s' = adStorage_get k s)"
  using assms
  by (simp add: createAd_def falsy_def AdStatus_OPEN_def getAdByID_def get_insert Let_def)

theorem C2_createAd_success_witness:
  "CreateAdPayload.itemType payload_bike \<noteq> []
   \<and> CreateAdPayload.itemDescription payload_bike \<noteq> []
   \<and> createAd ''a1'' ''o1'' 1000 payload_bike [] = (Ok ad_bike, [(''a1'', ad_bike)])
   \<and> getAdByID ''a1'' [(''a1'', ad_bike)] = Ok ad_bike"
  using C2_createAd_success [of payload_bike "''a1''" "''o1''" 1000 "[]"]
  by (simp add: payload_bike_def ad_bike_def)

section \<open>Updating an ad\<close>

lemma updateAd_InvalidParameters:
  "i = [] \<or> ownr = [] \<Longrightarrow>
   updateAd now i ownr payload s = (Err InvalidParameters_update, s)"
  by (auto simp: updateAd_def thrown_def or_else_def falsy_def InvalidParameters_update_def)

lemma updateAd_InvalidPayload:
  "i \<noteq> [] \<Longrightarrow> ownr \<noteq> [] \<Longrightarrow>
   UpdateAdPayload.itemType payload = [] \<or> UpdateAdPayload.itemDescription payload = [] \<Longrightarrow>
   updateAd now i ownr payload s = (Err InvalidPayload_update, s)"
  by (auto simp: updateAd_def thrown_def or_else_def falsy_def InvalidPayload_update_def)

lemma updateAd_InvalidStatus:
  "i \<noteq> [] \<Longrightarrow> ownr \<noteq> [] \<Longrightarrow>
   UpdateAdPayload.itemType payload \<noteq> [] \<Longrightarrow>
   UpdateAdPayload.itemDescription payload \<noteq> [] \<Longrightarrow>
   UpdateAdPayload.status payload \<noteq> [] \<Longrightarrow>
   \<not> in_AdStatus (UpdateAdPayload.status payload) \<Longrightarrow>
   updateAd now i ownr payload s = (Err InvalidStatus, s)"
  by (simp add: updateAd_def falsy_def join_AdStatus_values thrown_msg InvalidStatus_def)

lemma updateAd_NotFound:
  "i \<noteq> [] \<Longrightarrow> ownr \<noteq> [] \<Longrightarrow>
   UpdateAdPayload.itemType payload \<noteq> [] \<Longrightarrow>
   UpdateAdPayload.itemDescription payload \<noteq> [] \<Longrightarrow>
   UpdateAdPayload.status payload = [] \<or> in_AdStatus (UpdateAdPayload.status payload) \<Longrightarrow>
   adStorage_get i s = None \<Longrightarrow>
   updateAd now i ownr payload s = (Err (NotFound i), s)"
  by (auto simp: updateAd_def falsy_def NotFound_def)

text \<open>
  Claim C3. When \<open>updateAd\<close> succeeds there is a stored ad under the id given; the ad returned
  has the \<open>itemType\<close> and \<open>itemDescription\<close> of the payload, the status of the payload unless
  that is empty, in which case the stored status stays, and the current time as \<open>updatedAt\<close>;
  id, owner, \<open>createdAt\<close> and bids are those of the stored ad. The store left is the old one
  with the returned ad inserted under its id, where it is found afterwards.
\<close>

theorem C3_updateAd_success:
  assumes "updateAd now i ownr payload s = (Ok ad', s')"
  shows "\<exists>ad. adStorage_get i s = Some ad
           \<and> Ad.itemType ad' = UpdateAdPayload.itemType payload
           \<and> Ad.itemDescription ad' = UpdateAdPayload.itemDescription payload
           \<and> Ad.status ad' =
               (if UpdateAdPayload.status payload = [] then Ad.status ad
                else UpdateAdPayload.status payload)
           \<and> updatedAt ad' = Some now
           \<and> ad_id ad' = ad_id ad \<and> Ad.owner ad' = Ad.owner ad
           \<and> createdAt ad' = createdAt ad \<and> bids ad' = bids ad
           \<and> s' = adStorage_insert (ad_id ad) ad' s
           \<and> adStorage_get (ad_id ad') s' = Some ad'"
  using assms
  by (auto simp: updateAd_def thrown_def or_else_def falsy_def Let_def get_insert
      split: if_splits option.splits)

theorem C3_updateAd_success_witness:
  "updateAd 2000 ''a1'' ''o1'' update_closed [(''a1'', ad_bike)]
     = (Ok ad_bike_closed, [(''a1'', ad_bike_closed)])
   \<and> Ad.itemDescription ad_bike_closed = ''blue bike''
   \<and> Ad.status ad_bike_closed = ''CLOSED''
   \<and> updatedAt ad_bike_closed = Some 2000
   \<and> bids ad_bike_closed = bids ad_bike"
proof -
  have h: "updateAd 2000 ''a1'' ''o1'' update_closed [(''a1'', ad_bike)]
             = (Ok ad_bike_closed, [(''a1'', ad_bike_closed)])"
    by (simp add: updateAd_def falsy_def or_else_def in_AdStatus_def AdStatus_own_keys_def
        update_closed_def ad_bike_def ad_bike_closed_def Let_def)
  from C3_updateAd_success [OF h] show ?thesis
    using h by (auto simp: update_closed_def)
qed

text \<open>
  Claim C5. On a stored ad, \<open>updateAd\<close> with an owner other than the ad's, with non-empty id,
  owner, \<open>itemType\<close> and \<open>itemDescription\<close> and with one of the three statuses, fails with
  the message for a caller who is not the owner, and the store stays as it was.
\<close>

theorem C5_updateAd_unauthorized:
  assumes "adStorage_get i s = Some ad"
    and "ownr \<noteq> Ad.owner ad"
    and "i \<noteq> []" and "ownr \<noteq> []"
    and "UpdateAdPayload.itemType payload \<noteq> []"
    and "UpdateAdPayload.itemDescription payload \<noteq> []"
    and "UpdateAdPayload.status payload \<in> set AdStatus_values"
  shows "updateAd now i ownr payload s = (Err Unauthorized_update, s)"
  using assms
  by (auto simp: updateAd_def falsy_def in_AdStatus_def AdStatus_own_keys_def
      AdStatus_values_def AdStatus_OPEN_def AdStatus_CLOSED_def AdStatus_BOUGHT_def
      Unauthorized_update_def)

theorem C5_updateAd_unauthorized_witness:
  "adStorage_get ''a1'' [(''a1'', ad_bike)] = Some ad_bike
   \<and> ''o2'' \<noteq> Ad.owner ad_bike
   \<and> UpdateAdPayload.status update_closed \<in> set AdStatus_values
   \<and> updateAd 2000 ''a1'' ''o2'' update_closed [(''a1'', ad_bike)]
       = (Err ''Only the owner can edit the ad!'', [(''a1'', ad_bike)])"
  using C5_updateAd_unauthorized [of "''a1''" "[(''a1'', ad_bike)]" ad_bike "''o2''"
      update_closed 2000]
  by (simp add: ad_bike_def update_closed_def AdStatus_values_def AdStatus_OPEN_def
      AdStatus_CLOSED_def AdStatus_BOUGHT_def Unauthorized_update_def)

text \<open>
  Claim C1, at the status \<^verbatim>\<open>toString\<close>. The name is not one of the three statuses, but
  every object inherits it, so the test \<^verbatim>\<open>payload.status in AdStatus\<close> accepts it: the owner's
  update succeeds and the ad is stored with the status \<^verbatim>\<open>toString\<close>. The message of the
  failure that is not raised lists OPEN, CLOSED and BOUGHT as the statuses allowed.
\<close>

theorem C1_status_toString_accepted:
  "updateAd 2000 ''a1'' ''o1'' update_toString [(''a1'', ad_bike)]
     = (Ok ad_bike_toString, [(''a1'', ad_bike_toString)])"
  by (simp add: updateAd_def falsy_def or_else_def in_AdStatus_def AdStatus_own_keys_def
      Object_prototype_keys_def update_toString_def ad_bike_def ad_bike_toString_def Let_def)

text \<open>
  Claim C10, at the status \<^verbatim>\<open>toString\<close> on the empty store. The checks of the arguments and
  of the payload come before the lookup, in the order of the lemmas above, but the check of
  the status lets this name through, and the call gets as far as the lookup: the failure is
  the one for an ad that is not found.
\<close>

theorem C10_status_toString_not_found:
  "updateAd 2000 ''a1'' ''o1'' update_toString [] = (Err (NotFound ''a1''), [])"
  by (simp add: updateAd_def falsy_def in_AdStatus_def AdStatus_own_keys_def
      Object_prototype_keys_def update_toString_def NotFound_def)

section \<open>Bidding\<close>

text \<open>
  Claim C6. When \<open>bidOnAd\<close> succeeds there is a stored ad under the id given, and the ad
  returned is that ad with the bid of the bidder and amount given added at the end of its
  bids: every other field, status and \<open>updatedAt\<close> among them, is as stored. The store left is
  the old one with the returned ad inserted under its id, where it is found afterwards.
\<close>

theorem C6_bidOnAd_success:
  assumes "bidOnAd i bidr amnt s = (Ok ad', s')"
  shows "\<exists>ad. adStorage_get i s = Some ad
           \<and> ad' = ad\<lparr>bids := bids ad @ [\<lparr>bidder = bidr, amount = amnt\<rparr>]\<rparr>
           \<and> Ad.status ad' = Ad.status ad \<and> updatedAt ad' = updatedAt ad
           \<and> s' = adStorage_insert (ad_id ad) ad' s
           \<and> adStorage_get (ad_id ad') s' = Some ad'"
  using assms
  by (auto simp: bidOnAd_def thrown_def Let_def get_insert split: if_splits option.splits)

theorem C6_bidOnAd_success_witness:
  "bidOnAd ''a1'' ''buyer1'' (Finite 100) [(''a1'', ad_bike)]
     = (Ok ad_bike_bid, [(''a1'', ad_bike_bid)])
   \<and> bids ad_bike_bid = bids ad_bike @ [\<lparr>bidder = ''buyer1'', amount = Finite 100\<rparr>]
   \<and> Ad.status ad_bike_bid = Ad.status ad_bike
   \<and> updatedAt ad_bike_bid = updatedAt ad_bike"
proof -
  have h: "bidOnAd ''a1'' ''buyer1'' (Finite 100) [(''a1'', ad_bike)]
             = (Ok ad_bike_bid, [(''a1'', ad_bike_bid)])"
    by (simp add: bidOnAd_def falsy_def AdStatus_OPEN_def ad_bike_def ad_bike_bid_def
        bid_buyer1_def Let_def)
  from C6_bidOnAd_success [OF h] show ?thesis
    using h by (simp add: ad_bike_def ad_bike_bid_def bid_buyer1_def)
qed

section \<open>What holds of every store the canister can be in\<close>

lemma store_inv_get: "store_inv s \<Longrightarrow> adStorage_get k s = Some v \<Longrightarrow> stored_ok (k, v)"
  by (auto simp: store_inv_def list_all_iff dest: get_in_set)

lemma store_inv_insert:
  "store_inv s \<Longrightarrow> stored_ok (k, v) \<Longrightarrow> store_inv (adStorage_insert k v s)"
  using set_insert_subset [of k v s] by (auto simp: store_inv_def list_all_iff)

lemma store_inv_remove: "store_inv s \<Longrightarrow> store_inv (adStorage_remove k s)"
  using set_remove_subset [of k s] by (auto simp: store_inv_def list_all_iff)

lemma find_bidder_None:
  "find (\<lambda>bid. bidder bid = bidr) bs = None \<longleftrightarrow> bidr \<notin> set (map bidder bs)"
  by (auto simp: find_None_iff)

lemma createAd_inv:
  assumes "store_inv s" and "uuid1 \<noteq> []" and "uuid2 \<noteq> []"
  shows "store_inv (snd (createAd uuid1 uuid2 now payload s))"
  using assms
  by (auto simp: createAd_def Let_def stored_ok_def bids_ok_def intro!: store_inv_insert)

lemma updateAd_inv:
  assumes "store_inv s"
  shows "store_inv (snd (updateAd now i ownr payload s))"
proof (cases "adStorage_get i s")
  case None
  with assms show ?thesis
    by (simp add: updateAd_def)
next
  case (Some ad)
  with assms have "stored_ok (i, ad)"
    by (rule store_inv_get)
  then have "stored_ok (ad_id ad, ad\<lparr>Ad.itemType := t, Ad.itemDescription := d,
      Ad.status := st, updatedAt := u\<rparr>)" for t d st u
    by (simp add: stored_ok_def bids_ok_def)
  with assms Some show ?thesis
    by (simp add: updateAd_def Let_def store_inv_insert)
qed

lemma deleteAd_inv:
  assumes "store_inv s"
  shows "store_inv (snd (deleteAd i ownr s))"
  using assms by (simp add: deleteAd_def store_inv_remove split: option.splits)

lemma bidOnAd_inv:
  assumes "store_inv s"
  shows "store_inv (snd (bidOnAd i bidr amnt s))"
proof (cases "adStorage_get i s")
  case None
  with assms show ?thesis
    by (simp add: bidOnAd_def)
next
  case (Some ad)
  with assms have ok: "stored_ok (i, ad)"
    by (rule store_inv_get)
  have "stored_ok (ad_id ad, ad\<lparr>bids := bids ad @ [\<lparr>bidder = bidr, amount = amnt\<rparr>]\<rparr>)"
    if "Ad.owner ad \<noteq> bidr" and "find (\<lambda>bid. bidder bid = bidr) (bids ad) = None"
    using ok that by (auto simp: stored_ok_def bids_ok_def find_bidder_None)
  with assms Some show ?thesis
    by (simp add: bidOnAd_def Let_def store_inv_insert)
qed

lemma exec_inv: "store_inv s \<Longrightarrow> generated c s \<Longrightarrow> store_inv (exec c s)"
  by (cases c) (simp_all add: createAd_inv updateAd_inv deleteAd_inv bidOnAd_inv)

lemma run_inv: "store_inv s \<Longrightarrow> run cs s = Some s' \<Longrightarrow> store_inv s'"
  by (induction cs arbitrary: s) (auto split: if_splits intro: exec_inv)

lemma run_empty_inv: "run cs [] = Some s \<Longrightarrow> store_inv s"
  by (rule run_inv [of "[]"]) (simp_all add: store_inv_def)

text \<open>The list stays a map: no key comes twice.\<close>

lemma exec_distinct: "distinct (map fst s) \<Longrightarrow> distinct (map fst (exec c s))"
  by (cases c)
    (auto simp: createAd_def updateAd_def deleteAd_def bidOnAd_def Let_def distinct_insert
      distinct_remove split: option.splits)

lemma run_distinct: "distinct (map fst s) \<Longrightarrow> run cs s = Some s' \<Longrightarrow> distinct (map fst s')"
  by (induction cs arbitrary: s) (auto split: if_splits intro: exec_distinct)

lemma run_empty_distinct: "run cs [] = Some s \<Longrightarrow> distinct (map fst s)"
  by (rule run_distinct [of "[]"]) simp_all

lemma bids_grow_refl: "bids ad' = bids ad \<Longrightarrow> bids_grow ad ad'"
  by (simp add: bids_grow_def)

lemma createAd_bids:
  assumes "adStorage_get uuid1 s = None"
    and "adStorage_get i s = Some ad"
    and "adStorage_get i (snd (createAd uuid1 uuid2 now payload s)) = Some ad'"
  shows "ad' = ad"
  using assms by (auto simp: createAd_def Let_def get_insert split: if_splits)

lemma updateAd_bids:
  assumes "store_inv s"
    and "adStorage_get i s = Some ad"
    and "adStorage_get i (snd (updateAd now j ownr payload s)) = Some ad'"
  shows "bids ad' = bids ad"
proof (cases "adStorage_get j s")
  case None
  with assms show ?thesis
    by (simp add: updateAd_def split: if_splits)
next
  case (Some adj)
  with assms(1) have "stored_ok (j, adj)"
    by (rule store_inv_get)
  then have "ad_id adj = j"
    by (simp add: stored_ok_def)
  with assms Some show ?thesis
    by (auto simp: updateAd_def Let_def get_insert split: if_splits)
qed

lemma deleteAd_bids:
  assumes "adStorage_get i s = Some ad"
    and "adStorage_get i (snd (deleteAd j ownr s)) = Some ad'"
  shows "ad' = ad"
  using assms by (auto simp: deleteAd_def get_remove split: if_splits option.splits)

lemma bidOnAd_bids:
  assumes "store_inv s"
    and "adStorage_get i s = Some ad"
    and "adStorage_get i (snd (bidOnAd j bidr amnt s)) = Some ad'"
  shows "bids_grow ad ad'"
proof (cases "adStorage_get j s")
  case None
  with assms show ?thesis
    by (simp add: bidOnAd_def bids_grow_def split: if_splits)
next
  case (Some adj)
  with assms(1) have "stored_ok (j, adj)"
    by (rule store_inv_get)
  then have "ad_id adj = j"
    by (simp add: stored_ok_def)
  with assms Some show ?thesis
    by (auto simp: bidOnAd_def Let_def get_insert bids_grow_def split: if_splits)
qed

lemma exec_bids_grow:
  assumes "store_inv s" and "generated c s"
    and "adStorage_get i s = Some ad"
    and "adStorage_get i (exec c s) = Some ad'"
  shows "bids_grow ad ad'"
proof (cases c)
  case (CreateAd uuid1 uuid2 now payload)
  with assms show ?thesis
    by (auto intro: bids_grow_refl dest: createAd_bids)
next
  case (UpdateAd now j ownr payload)
  with assms show ?thesis
    by (auto intro: bids_grow_refl dest: updateAd_bids)
next
  case (DeleteAd j ownr)
  with assms show ?thesis
    by (auto intro: bids_grow_refl dest: deleteAd_bids)
next
  case (BidOnAd j bidr amnt)
  with assms show ?thesis
    by (auto dest: bidOnAd_bids)
qed (use assms in \<open>simp_all add: bids_grow_def\<close>)

text \<open>
  Claim C9. In every store reached from the empty one by calls of the seven functions, every
  ad has at most one bid for each bidder and none by its owner. From such a store, whatever
  the next call is, an ad that is stored before and after it keeps its bids, or it was open
  and has its bids in their order followed by one new bid.
\<close>

theorem C9_bids_invariants:
  assumes "run cs [] = Some s"
  shows "(\<forall>i ad. adStorage_get i s = Some ad \<longrightarrow>
            distinct (map bidder (bids ad)) \<and> Ad.owner ad \<notin> set (map bidder (bids ad)))
         \<and> (\<forall>c i ad ad'. generated c s \<and> adStorage_get i s = Some ad
               \<and> adStorage_get i (exec c s) = Some ad' \<longrightarrow> bids_grow ad ad')"
proof (intro conjI allI impI)
  fix i ad
  assume "adStorage_get i s = Some ad"
  with run_empty_inv [OF assms] have "stored_ok (i, ad)"
    by (rule store_inv_get)
  then show "distinct (map bidder (bids ad))"
    and "Ad.owner ad \<notin> set (map bidder (bids ad))"
    by (simp_all add: stored_ok_def bids_ok_def)
next
  fix c i ad ad'
  assume "generated c s \<and> adStorage_get i s = Some ad
    \<and> adStorage_get i (exec c s) = Some ad'"
  with run_empty_inv [OF assms] show "bids_grow ad ad'"
    by (blast intro: exec_bids_grow)
qed

theorem C9_bids_invariants_witness:
  "run calls_bike_bid [] = Some [(''a1'', ad_bike_bid)]
   \<and> distinct (map bidder (bids ad_bike_bid))
   \<and> Ad.owner ad_bike_bid \<notin> set (map bidder (bids ad_bike_bid))
   \<and> generated (BidOnAd ''a1'' ''buyer2'' (Finite 200)) [(''a1'', ad_bike_bid)]
   \<and> adStorage_get ''a1'' [(''a1'', ad_bike_bid)] = Some ad_bike_bid
   \<and> adStorage_get ''a1'' (exec (BidOnAd ''a1'' ''buyer2'' (Finite 200)) [(''a1'', ad_bike_bid)])
       = Some ad_bike_bid2
   \<and> bids_grow ad_bike_bid ad_bike_bid2"
proof -
  let ?c = "BidOnAd ''a1'' ''buyer2'' (Finite 200)"
  let ?s = "[(''a1'', ad_bike_bid)]"
  have g: "generated ?c ?s" and a: "adStorage_get ''a1'' ?s = Some ad_bike_bid"
    by simp_all
  have e: "adStorage_get ''a1'' (exec ?c ?s) = Some ad_bike_bid2"
    by (simp add: bidOnAd_def falsy_def AdStatus_OPEN_def ad_bike_def ad_bike_bid_def
        ad_bike_bid2_def bid_buyer1_def Let_def)
  note inv = C9_bids_invariants [OF run_calls_bike_bid]
  from inv a have "distinct (map bidder (bids ad_bike_bid))
      \<and> Ad.owner ad_bike_bid \<notin> set (map bidder (bids ad_bike_bid))"
    by blast
  moreover from inv g a e have "bids_grow ad_bike_bid ad_bike_bid2"
    by blast
  ultimately show ?thesis
    using run_calls_bike_bid g a e by simp
qed

section \<open>Two bids by one bidder\<close>

text \<open>
  Claim C4 as it is stated fails where the bidder has a bid on the ad already: the store
  reached by creating an ad and letting \<^verbatim>\<open>buyer1\<close> bid holds an open ad whose owner is not
  \<^verbatim>\<open>buyer1\<close>, and the next bid of \<^verbatim>\<open>buyer1\<close>, with a valid amount, is the one that fails.
  It fails as well for the empty string as bidder, which is not the owner either: that call
  does not pass the check of the parameters.
\<close>

theorem C4_first_bid_may_fail:
  "run calls_bike_bid [] = Some [(''a1'', ad_bike_bid)]
   \<and> adStorage_get ''a1'' [(''a1'', ad_bike_bid)] = Some ad_bike_bid
   \<and> Ad.status ad_bike_bid = AdStatus_OPEN
   \<and> ''buyer1'' \<noteq> Ad.owner ad_bike_bid
   \<and> [] \<noteq> Ad.owner ad_bike_bid
   \<and> isNaN (Finite 150) = False
   \<and> bidOnAd ''a1'' ''buyer1'' (Finite 150) [(''a1'', ad_bike_bid)]
       = (Err (DuplicateBid ''buyer1''), [(''a1'', ad_bike_bid)])
   \<and> bidOnAd ''a1'' [] (Finite 150) [(''a1'', ad_bike_bid)]
       = (Err ''Invalid parameters for bidding on ad'', [(''a1'', ad_bike_bid)])"
  using run_calls_bike_bid
  by (simp add: bidOnAd_def falsy_def AdStatus_OPEN_def ad_bike_def ad_bike_bid_def
      bid_buyer1_def DuplicateBid_def thrown_def or_else_def)

text \<open>
  Claim C4, amended. In a store reached from the empty one, take an open ad and a non-empty
  bidder who is not its owner and has no bid on it yet. A first bid with a valid amount
  succeeds and adds that one bid at the end; a second bid by the same bidder, with any valid
  amount, fails with the message for a bidder who has bid already and leaves the store, and
  so the bids of the ad and their number, as the first bid left them.
\<close>

theorem C4_second_bid_rejected:
  assumes "run cs [] = Some s"
    and "adStorage_get i s = Some ad"
    and "Ad.status ad = AdStatus_OPEN"
    and "bidr \<noteq> []"
    and "bidr \<noteq> Ad.owner ad"
    and "bidr \<notin> set (map bidder (bids ad))"
    and "\<not> isNaN amnt1" and "\<not> isNaN amnt2"
  defines "ad1 \<equiv> ad\<lparr>bids := bids ad @ [\<lparr>bidder = bidr, amount = amnt1\<rparr>]\<rparr>"
  defines "s1 \<equiv> adStorage_insert i ad1 s"
  shows "bidOnAd i bidr amnt1 s = (Ok ad1, s1)
         \<and> bidOnAd i bidr amnt2 s1 = (Err (DuplicateBid bidr), s1)
         \<and> adStorage_get i s1 = Some ad1
         \<and> length (bids ad1) = Suc (length (bids ad))"
proof -
  from run_empty_inv [OF assms(1)] assms(2) have "stored_ok (i, ad)"
    by (rule store_inv_get)
  then have i: "ad_id ad = i" "i \<noteq> []"
    by (simp_all add: stored_ok_def)
  have none: "find (\<lambda>bid. bidder bid = bidr) (bids ad) = None"
    using assms(6) by (simp add: find_bidder_None)
  have first: "bidOnAd i bidr amnt1 s = (Ok ad1, s1)"
    using assms(2-5,7) i none by (auto simp: bidOnAd_def falsy_def Let_def ad1_def s1_def)
  have stored: "adStorage_get i s1 = Some ad1"
    by (simp add: s1_def get_insert)
  have some: "find (\<lambda>bid. bidder bid = bidr) (bids ad1) \<noteq> None"
    by (simp add: find_bidder_None ad1_def)
  have second: "bidOnAd i bidr amnt2 s1 = (Err (DuplicateBid bidr), s1)"
    using assms(3-5,8) i stored some
    by (auto simp: bidOnAd_def falsy_def DuplicateBid_def ad1_def)
  from first second stored show ?thesis
    by (simp add: ad1_def)
qed

theorem C4_second_bid_rejected_witness:
  "run calls_bike [] = Some [(''a1'', ad_bike)]
   \<and> adStorage_get ''a1'' [(''a1'', ad_bike)] = Some ad_bike
   \<and> Ad.status ad_bike = AdStatus_OPEN
   \<and> ''buyer1'' \<notin> set (map bidder (bids ad_bike))
   \<and> bidOnAd ''a1'' ''buyer1'' (Finite 100) [(''a1'', ad_bike)]
       = (Ok ad_bike_bid, [(''a1'', ad_bike_bid)])
   \<and> bidOnAd ''a1'' ''buyer1'' (Finite 150) [(''a1'', ad_bike_bid)]
       = (Err ''buyer1 has already bid on this ad!'', [(''a1'', ad_bike_bid)])
   \<and> length (bids ad_bike_bid) = 1"
  using C4_second_bid_rejected [OF run_calls_bike, of "''a1''" ad_bike "''buyer1''"
      "Finite 100" "Finite 150"] run_calls_bike
  by (simp add: ad_bike_def ad_bike_bid_def bid_buyer1_def AdStatus_OPEN_def DuplicateBid_def)

section \<open>Deleting an ad\<close>

lemma deleteAd_owner:
  assumes "adStorage_get i s = Some ad" and "i \<noteq> []" and "Ad.owner ad \<noteq> []"
  shows "deleteAd i (Ad.owner ad) s = (Ok ad, adStorage_remove i s)"
  using assms by (simp add: deleteAd_def falsy_def)

text \<open>
  Claim C8. In a store reached from the empty one, \<open>deleteAd\<close> with the id of a stored ad and
  the owner of that ad succeeds: it returns the ad as it was stored and leaves the store
  without it, so that \<open>getAdByID\<close> with the same id then fails with the message for an ad
  that is not found.
\<close>

theorem C8_deleteAd_by_owner:
  assumes "run cs [] = Some s"
    and "adStorage_get i s = Some ad"
  shows "deleteAd i (Ad.owner ad) s = (Ok ad, adStorage_remove i s)
         \<and> adStorage_get i (adStorage_remove i s) = None
         \<and> getAdByID i (snd (deleteAd i (Ad.owner ad) s)) = Err (NotFound_query i)"
proof -
  from run_empty_inv [OF assms(1)] assms(2) have "stored_ok (i, ad)"
    by (rule store_inv_get)
  then have "i \<noteq> []" and "Ad.owner ad \<noteq> []"
    by (simp_all add: stored_ok_def)
  with assms(2) have "deleteAd i (Ad.owner ad) s = (Ok ad, adStorage_remove i s)"
    by (rule deleteAd_owner)
  then show ?thesis
    by (simp add: getAdByID_def get_remove NotFound_query_def)
qed

theorem C8_deleteAd_by_owner_witness:
  "run calls_bike_bid [] = Some [(''a1'', ad_bike_bid)]
   \<and> adStorage_get ''a1'' [(''a1'', ad_bike_bid)] = Some ad_bike_bid
   \<and> deleteAd ''a1'' ''o1'' [(''a1'', ad_bike_bid)] = (Ok ad_bike_bid, [])
   \<and> getAdByID ''a1'' [] = Err ''Ad with id of a1 has not been found!''"
  using C8_deleteAd_by_owner [OF run_calls_bike_bid, of "''a1''" ad_bike_bid] run_calls_bike_bid
  by (simp add: ad_bike_def ad_bike_bid_def NotFound_query_def getAdByID_def)

end
